theory Spec2Isabelle
  imports Main
begin

section \<open>Gestures and actions (gestures.py)\<close>

text \<open>
  \<^verbatim>\<open>class Gesture(Enum)\<close>: the seven hand poses. \<open>gesture_value\<close> is the
  \<^verbatim>\<open>.value\<close> string of each member.
\<close>

datatype Gesture =
  CLOSED_FIST | THUMB_UP | THUMB_DOWN | OPEN_PALM | POINTING_UP | VICTORY | I_LOVE_YOU

fun gesture_value :: "Gesture \<Rightarrow> string" where
  "gesture_value CLOSED_FIST = ''Closed_Fist''"
| "gesture_value THUMB_UP = ''Thumb_Up''"
| "gesture_value THUMB_DOWN = ''Thumb_Down''"
| "gesture_value OPEN_PALM = ''Open_Palm''"
| "gesture_value POINTING_UP = ''Pointing_Up''"
| "gesture_value VICTORY = ''Victory''"
| "gesture_value I_LOVE_YOU = ''ILoveYou''"

text \<open>
  Exceptions are values. The constructors follow the \<^verbatim>\<open>except\<close> clauses of the
  source: \<^verbatim>\<open>spotipy.exceptions.SpotifyException\<close>, the
  \<^verbatim>\<open>NotImplementedError\<close> of the placeholder action, any other subclass of
  \<^verbatim>\<open>Exception\<close>, and a \<^verbatim>\<open>BaseException\<close> that is no
  \<^verbatim>\<open>Exception\<close> (\<^verbatim>\<open>KeyboardInterrupt\<close>, \<^verbatim>\<open>SystemExit\<close>). The string
  is what \<^verbatim>\<open>str(e)\<close> gives.
\<close>

datatype error =
  SpotifyException string
| NotImplementedError string
| OtherException string
| NonException string

text \<open>
  Everything outside the approval manager that a callable can touch: the lines written
  by \<^verbatim>\<open>print\<close>, and the rest (the playback service, the controller's fields),
  whose type \<open>'x\<close> is left open.
\<close>

record 'x world =
  stdout :: "string list"
  ext :: 'x

definition print :: "string \<Rightarrow> 'x world \<Rightarrow> 'x world" where
  "print line w = w\<lparr>stdout := stdout w @ [line]\<rparr>"

text \<open>
  A \<^verbatim>\<open>Callable[[], None]\<close>: run on a world it gives the world it leaves behind and
  \<open>None\<close> when it returns, \<open>Some e\<close> when it raises \<open>e\<close>. The callables of this
  program hold no reference to the approval manager, so they cannot change it.
\<close>

type_synonym 'x callable = "'x world \<Rightarrow> 'x world \<times> error option"

record 'x GestureAction =
  action_name :: string
  action :: "'x callable"

text \<open>\<^verbatim>\<open>GestureAction.perform_action\<close>: \<^verbatim>\<open>self.action()\<close>.\<close>

definition perform_action :: "'x GestureAction \<Rightarrow> 'x callable" where
  "perform_action a w = action a w"

text \<open>
  \<^verbatim>\<open>GestureToActionMapper\<close>: one field, the dict from gestures to actions, empty at
  construction. \<^verbatim>\<open>add_mapping\<close> is the item assignment
  \<^verbatim>\<open>self.gesture_action_map[gesture] = action\<close>. The keys are members of
  \<^verbatim>\<open>Gesture\<close>, as the annotations \<^verbatim>\<open>dict[Gesture, GestureAction]\<close> and
  \<^verbatim>\<open>gesture: Gesture\<close> say and as every caller and every lookup of the state machine
  has it. The docstrings of the class still describe the keys as \<^verbatim>\<open>str\<close> names;
  a key registered as a string would never equal a member, and its action would never
  become pending. The model follows the annotations.
\<close>

record 'x GestureToActionMapper =
  gesture_action_map :: "Gesture \<rightharpoonup> 'x GestureAction"

definition GestureToActionMapper_init :: "'x GestureToActionMapper" where
  "GestureToActionMapper_init = \<lparr>gesture_action_map = Map.empty\<rparr>"

definition add_mapping ::
  "Gesture \<Rightarrow> 'x GestureAction \<Rightarrow> 'x GestureToActionMapper \<Rightarrow> 'x GestureToActionMapper" where
  "add_mapping gesture a m = m\<lparr>gesture_action_map := (gesture_action_map m)(gesture \<mapsto> a)\<rparr>"

section \<open>The approval state machine (states.py)\<close>

text \<open>
  The three subclasses of \<^verbatim>\<open>GestureState\<close> carry no fields, so a state object is
  its class. The specification calls them Idle, PendingApproval and Executing.
\<close>

datatype GestureState = IdleState | ActionDetectedState | ApprovedState

record 'x ActionApprovalManager =
  state :: GestureState
  pending_gesture :: "Gesture option"
  mapper :: "'x GestureToActionMapper"

text \<open>\<^verbatim>\<open>ActionApprovalManager.__init__\<close>.\<close>

definition ActionApprovalManager_init ::
  "'x GestureToActionMapper \<Rightarrow> 'x ActionApprovalManager" where
  "ActionApprovalManager_init mp = \<lparr>state = IdleState, pending_gesture = None, mapper = mp\<rparr>"

text \<open>
  A session is the manager together with the world it runs in. \<open>performed\<close> is a
  history variable: the actions whose \<^verbatim>\<open>perform_action\<close> the manager has called,
  oldest first. No callable can write it.
\<close>

record 'x session =
  manager :: "'x ActionApprovalManager"
  world :: "'x world"
  performed :: "'x GestureAction list"

definition start_session :: "'x GestureToActionMapper \<Rightarrow> 'x world \<Rightarrow> 'x session" where
  "start_session mp w = \<lparr>manager = ActionApprovalManager_init mp, world = w, performed = []\<rparr>"

text \<open>
  A call either returns or raises; in both cases the fields written before that moment
  stay written, so both outcomes carry the session.
\<close>

datatype 's outcome = Returned 's | Raised error 's

fun after :: "'s outcome \<Rightarrow> 's" where
  "after (Returned s) = s"
| "after (Raised e s) = s"

fun raised :: "'s outcome \<Rightarrow> error option" where
  "raised (Returned s) = None"
| "raised (Raised e s) = Some e"

definition transition_to :: "GestureState \<Rightarrow> 'x session \<Rightarrow> 'x session" where
  "transition_to st s = s\<lparr>manager := (manager s)\<lparr>state := st\<rparr>\<rparr>"

definition set_pending_gesture :: "Gesture option \<Rightarrow> 'x session \<Rightarrow> 'x session" where
  "set_pending_gesture p s = s\<lparr>manager := (manager s)\<lparr>pending_gesture := p\<rparr>\<rparr>"

definition say :: "string \<Rightarrow> 'x session \<Rightarrow> 'x session" where
  "say line s = s\<lparr>world := print line (world s)\<rparr>"

text \<open>
  The manager calling \<^verbatim>\<open>action.perform_action()\<close>: the call is logged, the
  callable runs on the world, and its exception, if any, is passed on.
\<close>

definition invoke :: "'x GestureAction \<Rightarrow> 'x session \<Rightarrow> 'x session outcome" where
  "invoke a s =
     (case perform_action a (world s) of
        (w', None) \<Rightarrow> Returned (s\<lparr>world := w', performed := performed s @ [a]\<rparr>)
      | (w', Some e) \<Rightarrow> Raised e (s\<lparr>world := w', performed := performed s @ [a]\<rparr>))"

text \<open>
  \<^verbatim>\<open>ActionApprovalManager.execute_action\<close>. Members of a plain \<^verbatim>\<open>Enum\<close> and
  instances of \<^verbatim>\<open>GestureAction\<close> are truthy, so \<^verbatim>\<open>if self.pending_gesture\<close>
  and \<^verbatim>\<open>if action\<close> test for \<^verbatim>\<open>None\<close>. Nothing here catches an exception:
  when the action raises, the assignment \<^verbatim>\<open>self.pending_gesture = None\<close> is not
  reached.
\<close>

definition execute_action :: "'x session \<Rightarrow> 'x session outcome" where
  "execute_action s =
     (case pending_gesture (manager s) of
        None \<Rightarrow> Returned s
      | Some p \<Rightarrow>
          (case gesture_action_map (mapper (manager s)) p of
             None \<Rightarrow> Returned (set_pending_gesture None s)
           | Some a \<Rightarrow>
               (case invoke a (say (''Performing action: '' @ action_name a) s) of
                  Raised e s' \<Rightarrow> Raised e s'
                | Returned s' \<Rightarrow> Returned (set_pending_gesture None s'))))"

text \<open>
  The three \<^verbatim>\<open>handle_gesture\<close> methods. The argument is
  \<^verbatim>\<open>recognizer.recognized_gesture\<close>, an \<^verbatim>\<open>Optional[Gesture]\<close>: \<open>None\<close> is
  "no gesture". \<^verbatim>\<open>None in gesture_action_map\<close> is false, the keys being gestures.
  \<open>awaiting_notice\<close> is the line the idle state prints, with the gesture's value
  between apostrophes (character \<open>0x27\<close>).
\<close>

definition awaiting_notice :: "Gesture \<Rightarrow> string" where
  "awaiting_notice g =
     ''Gesture '' @ [CHR 0x27] @ gesture_value g @ [CHR 0x27]
       @ '' detected. Waiting for approval...''"

definition IdleState_handle_gesture ::
  "Gesture option \<Rightarrow> 'x session \<Rightarrow> 'x session outcome" where
  "IdleState_handle_gesture gesture s =
     (if gesture = Some CLOSED_FIST then Returned s
      else
        (case gesture of
           None \<Rightarrow> Returned s
         | Some g \<Rightarrow>
             if gesture_action_map (mapper (manager s)) g \<noteq> None
             then Returned
               (say (awaiting_notice g)
                  (set_pending_gesture (Some g) (transition_to ActionDetectedState s)))
             else Returned s))"

definition ActionDetectedState_handle_gesture ::
  "Gesture option \<Rightarrow> 'x session \<Rightarrow> 'x session outcome" where
  "ActionDetectedState_handle_gesture gesture s =
     (if gesture = Some CLOSED_FIST then execute_action (transition_to ApprovedState s)
      else Returned s)"

definition ApprovedState_handle_gesture ::
  "Gesture option \<Rightarrow> 'x session \<Rightarrow> 'x session outcome" where
  "ApprovedState_handle_gesture gesture s = Returned (transition_to IdleState s)"

text \<open>
  \<^verbatim>\<open>ActionApprovalManager.handle_gesture\<close>:
  \<^verbatim>\<open>self.state.handle_gesture(gesture, self)\<close>, the dynamic dispatch on the class of
  the state object.
\<close>

definition handle_gesture :: "Gesture option \<Rightarrow> 'x session \<Rightarrow> 'x session outcome" where
  "handle_gesture gesture s =
     (case state (manager s) of
        IdleState \<Rightarrow> IdleState_handle_gesture gesture s
      | ActionDetectedState \<Rightarrow> ActionDetectedState_handle_gesture gesture s
      | ApprovedState \<Rightarrow> ApprovedState_handle_gesture gesture s)"

text \<open>
  The frame loop of \<^verbatim>\<open>CameraCapture.start_capture\<close> hands one observation per frame
  to \<^verbatim>\<open>handle_gesture\<close> and catches nothing, so an exception ends the loop:
  \<open>run\<close> stops at the first call that raises. \<open>run_states\<close> lists the state after
  each call of the same loop.
\<close>

fun run :: "Gesture option list \<Rightarrow> 'x session \<Rightarrow> 'x session outcome" where
  "run [] s = Returned s"
| "run (g # gs) s =
     (case handle_gesture g s of
        Returned s' \<Rightarrow> run gs s'
      | Raised e s' \<Rightarrow> Raised e s')"

fun run_states :: "Gesture option list \<Rightarrow> 'x session \<Rightarrow> GestureState list" where
  "run_states [] s = []"
| "run_states (g # gs) s =
     (case handle_gesture g s of
        Returned s' \<Rightarrow> state (manager s') # run_states gs s'
      | Raised e s' \<Rightarrow> [state (manager s')])"

text \<open>
  \<open>entries st xs\<close> counts the positions of a list of states at which the machine enters
  \<open>st\<close> from another state.
\<close>

fun entries :: "GestureState \<Rightarrow> GestureState list \<Rightarrow> nat" where
  "entries st (a # b # xs) = (if a \<noteq> st \<and> b = st then 1 else 0) + entries st (b # xs)"
| "entries st [a] = 0"
| "entries st [] = 0"

text \<open>
  A caller that catches what a call raises and goes on with the same manager object:
  \<open>calls\<close> makes every call of the sequence, each on the session the one before left.
\<close>

fun calls :: "Gesture option list \<Rightarrow> 'x session \<Rightarrow> 'x session" where
  "calls [] s = s"
| "calls (g # gs) s = calls gs (after (handle_gesture g s))"

section \<open>The playback controller's decorator (spotify.py)\<close>

text \<open>
  \<^verbatim>\<open>handle_spotify_errors\<close>: the wrapper calls the function; a
  \<^verbatim>\<open>SpotifyException\<close> and any other \<^verbatim>\<open>Exception\<close> are printed and swallowed
  (the wrapper then returns \<^verbatim>\<open>None\<close>); what is no \<^verbatim>\<open>Exception\<close> passes
  through. \<^verbatim>\<open>@wraps\<close> keeps \<^verbatim>\<open>func.__name__\<close>, the first argument here.
\<close>

definition handle_spotify_errors :: "string \<Rightarrow> 'x callable \<Rightarrow> 'x callable" where
  "handle_spotify_errors func_name func w =
     (case func w of
        (w', None) \<Rightarrow> (w', None)
      | (w', Some (SpotifyException msg)) \<Rightarrow>
          (print (''Spotify error in '' @ func_name @ '': '' @ msg) w', None)
      | (w', Some (NotImplementedError msg)) \<Rightarrow>
          (print (''Unexpected error in '' @ func_name @ '': '' @ msg) w', None)
      | (w', Some (OtherException msg)) \<Rightarrow>
          (print (''Unexpected error in '' @ func_name @ '': '' @ msg) w', None)
      | (w', Some (NonException msg)) \<Rightarrow> (w', Some (NonException msg)))"

text \<open>
  \<^verbatim>\<open>SpotifyController\<close>. The bodies of its methods talk to the Web API client of the
  external \<^verbatim>\<open>spotipy\<close> package (under \<^verbatim>\<open>ensure_device\<close> after resolving the
  device); they are parameters. Each method is its body under
  \<^verbatim>\<open>@handle_spotify_errors\<close>.
\<close>

record 'x SpotifyController =
  add_current_track_to_liked_body :: "'x callable"
  stop_playback_body :: "'x callable"
  play_next_track_body :: "'x callable"
  decrease_volume_body :: "'x callable"
  increment_volume_body :: "'x callable"
  mute_body :: "'x callable"
  unmute_body :: "'x callable"

definition add_current_track_to_liked :: "'x SpotifyController \<Rightarrow> 'x callable" where
  "add_current_track_to_liked sc =
     handle_spotify_errors ''add_current_track_to_liked'' (add_current_track_to_liked_body sc)"

definition stop_playback :: "'x SpotifyController \<Rightarrow> 'x callable" where
  "stop_playback sc = handle_spotify_errors ''stop_playback'' (stop_playback_body sc)"

definition play_next_track :: "'x SpotifyController \<Rightarrow> 'x callable" where
  "play_next_track sc = handle_spotify_errors ''play_next_track'' (play_next_track_body sc)"

definition decrease_volume :: "'x SpotifyController \<Rightarrow> 'x callable" where
  "decrease_volume sc = handle_spotify_errors ''decrease_volume'' (decrease_volume_body sc)"

definition increment_volume :: "'x SpotifyController \<Rightarrow> 'x callable" where
  "increment_volume sc = handle_spotify_errors ''increment_volume'' (increment_volume_body sc)"

definition mute :: "'x SpotifyController \<Rightarrow> 'x callable" where
  "mute sc = handle_spotify_errors ''mute'' (mute_body sc)"

definition unmute :: "'x SpotifyController \<Rightarrow> 'x callable" where
  "unmute sc = handle_spotify_errors ''unmute'' (unmute_body sc)"

text \<open>
  The content actions: the playback controls of the controller, the operations a gesture
  is meant to trigger.
\<close>

definition content_actions :: "'x SpotifyController \<Rightarrow> 'x callable list" where
  "content_actions sc =
     [add_current_track_to_liked sc, stop_playback sc, play_next_track sc,
      decrease_volume sc, increment_volume sc, mute sc, unmute sc]"

section \<open>Startup registration (app.py)\<close>

text \<open>
  \<^verbatim>\<open>not_implemented_action\<close>, the local function of
  \<^verbatim>\<open>add_gesture_mappings\<close>: it raises and does nothing else.
\<close>

definition not_implemented_action :: "'x callable" where
  "not_implemented_action w = (w, Some (NotImplementedError ''Action not implemented''))"

text \<open>\<^verbatim>\<open>ApplicationController.add_gesture_mappings\<close>: seven registrations, in order.\<close>

definition add_gesture_mappings ::
  "'x SpotifyController \<Rightarrow> 'x GestureToActionMapper \<Rightarrow> 'x GestureToActionMapper" where
  "add_gesture_mappings sc mp =
     add_mapping CLOSED_FIST \<lparr>action_name = ''Approve'', action = not_implemented_action\<rparr>
    (add_mapping I_LOVE_YOU \<lparr>action_name = ''Unmute'', action = unmute sc\<rparr>
    (add_mapping VICTORY \<lparr>action_name = ''Mute'', action = mute sc\<rparr>
    (add_mapping POINTING_UP \<lparr>action_name = ''Increase Volume'', action = increment_volume sc\<rparr>
    (add_mapping OPEN_PALM \<lparr>action_name = ''Stop Playback'', action = stop_playback sc\<rparr>
    (add_mapping THUMB_DOWN \<lparr>action_name = ''Play Next'', action = play_next_track sc\<rparr>
    (add_mapping THUMB_UP
       \<lparr>action_name = ''Add to Liked'', action = add_current_track_to_liked sc\<rparr> mp))))))"

text \<open>
  \<^verbatim>\<open>ApplicationController.__init__\<close>, the part that builds the registry and the
  manager. The manager is constructed before the registrations but holds the same mapper
  object, so it sees all of them: the session starts with the filled registry.
\<close>

definition ApplicationController_init :: "'x SpotifyController \<Rightarrow> 'x world \<Rightarrow> 'x session" where
  "ApplicationController_init sc w =
     start_session (add_gesture_mappings sc GestureToActionMapper_init) w"

section \<open>Sample registrations\<close>

text \<open>
  Stand-ins for concrete actions, on a world whose open part is a volume: one that
  raises the volume by ten, one that mutes, and one that fails.
\<close>

definition volume_up :: "nat GestureAction" where
  "volume_up = \<lparr>action_name = ''Increase Volume'', action = (\<lambda>w. (w\<lparr>ext := ext w + 10\<rparr>, None))\<rparr>"

definition volume_off :: "nat GestureAction" where
  "volume_off = \<lparr>action_name = ''Mute'', action = (\<lambda>w. (w\<lparr>ext := 0\<rparr>, None))\<rparr>"

definition unreachable_service :: "nat GestureAction" where
  "unreachable_service =
     \<lparr>action_name = ''Play Next'', action = (\<lambda>w. (w, Some (OtherException ''timed out'')))\<rparr>"

definition quiet_room :: "nat world" where
  "quiet_room = \<lparr>stdout = [], ext = 30\<rparr>"

definition silent_controller :: "nat SpotifyController" where
  "silent_controller =
     \<lparr>add_current_track_to_liked_body = (\<lambda>w. (w, None)),
      stop_playback_body = (\<lambda>w. (w, None)),
      play_next_track_body = (\<lambda>w. (w, Some (SpotifyException ''no active device''))),
      decrease_volume_body = (\<lambda>w. (w\<lparr>ext := ext w - 10\<rparr>, None)),
      increment_volume_body = (\<lambda>w. (w\<lparr>ext := min 100 (ext w + 10)\<rparr>, None)),
      mute_body = (\<lambda>w. (w\<lparr>ext := 0\<rparr>, None)),
      unmute_body = (\<lambda>w. (w\<lparr>ext := 100\<rparr>, None))\<rparr>"

section \<open>The invariant of the specification\<close>

text \<open>
  The pending gesture is set exactly when the machine waits for approval.
\<close>

definition consistent :: "'x session \<Rightarrow> bool" where
  "consistent s \<longleftrightarrow>
     (pending_gesture (manager s) \<noteq> None) = (state (manager s) = ActionDetectedState)"

section \<open>One call, state by state\<close>

lemma idle_mapped:
  "state (manager s) = IdleState \<Longrightarrow> g \<noteq> CLOSED_FIST \<Longrightarrow>
   gesture_action_map (mapper (manager s)) g = Some a \<Longrightarrow>
   handle_gesture (Some g) s =
     Returned (s\<lparr>manager := (manager s)\<lparr>state := ActionDetectedState, pending_gesture := Some g\<rparr>,
                 world := print (awaiting_notice g) (world s)\<rparr>)"
  by (simp add: handle_gesture_def IdleState_handle_gesture_def transition_to_def
      set_pending_gesture_def say_def)

lemma idle_fist:
  "state (manager s) = IdleState \<Longrightarrow> handle_gesture (Some CLOSED_FIST) s = Returned s"
  by (simp add: handle_gesture_def IdleState_handle_gesture_def)

lemma idle_returns:
  "state (manager s) = IdleState \<Longrightarrow> \<exists>s'. handle_gesture gesture s = Returned s'"
  by (simp add: handle_gesture_def IdleState_handle_gesture_def split: option.split)

lemma detected_other:
  "state (manager s) = ActionDetectedState \<Longrightarrow> gesture \<noteq> Some CLOSED_FIST \<Longrightarrow>
   handle_gesture gesture s = Returned s"
  by (simp add: handle_gesture_def ActionDetectedState_handle_gesture_def)

lemma detected_fist_unbound:
  "state (manager s) = ActionDetectedState \<Longrightarrow> pending_gesture (manager s) = Some p \<Longrightarrow>
   gesture_action_map (mapper (manager s)) p = None \<Longrightarrow>
   handle_gesture (Some CLOSED_FIST) s =
     Returned (s\<lparr>manager := (manager s)\<lparr>state := ApprovedState, pending_gesture := None\<rparr>\<rparr>)"
  by (simp add: handle_gesture_def ActionDetectedState_handle_gesture_def execute_action_def
      transition_to_def set_pending_gesture_def)

lemma detected_fist_bound:
  "state (manager s) = ActionDetectedState \<Longrightarrow> pending_gesture (manager s) = Some p \<Longrightarrow>
   gesture_action_map (mapper (manager s)) p = Some a \<Longrightarrow>
   action a (print (''Performing action: '' @ action_name a) (world s)) = (w', r) \<Longrightarrow>
   handle_gesture (Some CLOSED_FIST) s =
     (case r of
        None \<Rightarrow> Returned (s\<lparr>manager := (manager s)\<lparr>state := ApprovedState, pending_gesture := None\<rparr>,
                              world := w', performed := performed s @ [a]\<rparr>)
      | Some e \<Rightarrow> Raised e (s\<lparr>manager := (manager s)\<lparr>state := ApprovedState\<rparr>,
                                world := w', performed := performed s @ [a]\<rparr>))"
  by (simp add: handle_gesture_def ActionDetectedState_handle_gesture_def execute_action_def
      transition_to_def set_pending_gesture_def say_def invoke_def perform_action_def
      split: option.split)

lemma approved_any:
  "state (manager s) = ApprovedState \<Longrightarrow>
   handle_gesture gesture s = Returned (s\<lparr>manager := (manager s)\<lparr>state := IdleState\<rparr>\<rparr>)"
  by (simp add: handle_gesture_def ApprovedState_handle_gesture_def transition_to_def)

lemma step_consistent:
  assumes "consistent s" and "handle_gesture gesture s = Returned s'"
  shows "consistent s'"
proof (cases "state (manager s)")
  case IdleState
  show ?thesis
  proof (cases "\<exists>g a. gesture = Some g \<and> g \<noteq> CLOSED_FIST \<and> gesture_action_map (mapper (manager s)) g = Some a")
    case True
    then obtain g a where "gesture = Some g" "g \<noteq> CLOSED_FIST" "gesture_action_map (mapper (manager s)) g = Some a" by blast
    with idle_mapped[OF IdleState this(2,3)] assms(2) show ?thesis
      by (auto simp: consistent_def)
  next
    case False
    with IdleState have "handle_gesture gesture s = Returned s"
      by (auto simp add: handle_gesture_def IdleState_handle_gesture_def split: option.split)
    with assms show ?thesis by simp
  qed
next
  case ActionDetectedState
  show ?thesis
  proof (cases "gesture = Some CLOSED_FIST")
    case False
    with detected_other[OF ActionDetectedState] assms show ?thesis by simp
  next
    case True
    from ActionDetectedState assms(1) obtain p where p: "pending_gesture (manager s) = Some p"
      by (auto simp: consistent_def)
    show ?thesis
    proof (cases "gesture_action_map (mapper (manager s)) p")
      case None
      with detected_fist_unbound[OF ActionDetectedState p] assms(2) True show ?thesis
        by (auto simp: consistent_def)
    next
      case (Some a)
      obtain w' r where "action a (print (''Performing action: '' @ action_name a) (world s)) = (w', r)"
        by (cases "action a (print (''Performing action: '' @ action_name a) (world s))")
      from detected_fist_bound[OF ActionDetectedState p Some this] assms(2) True show ?thesis
        by (auto simp: consistent_def split: option.splits)
    qed
  qed
next
  case ApprovedState
  with assms(1) have "pending_gesture (manager s) = None" by (simp add: consistent_def)
  with approved_any[OF ApprovedState, of gesture] assms(2) show ?thesis
    by (auto simp: consistent_def)
qed

lemma run_consistent:
  "consistent s \<Longrightarrow> run gs s = Returned s' \<Longrightarrow> consistent s'"
proof (induction gs arbitrary: s)
  case Nil
  then show ?case by simp
next
  case (Cons g gs)
  show ?case
  proof (cases "handle_gesture g s")
    case (Returned t)
    with Cons.prems(1) have "consistent t" by (blast intro: step_consistent)
    moreover from Cons.prems(2) Returned have "run gs t = Returned s'" by simp
    ultimately show ?thesis by (rule Cons.IH)
  next
    case (Raised e t)
    with Cons.prems(2) show ?thesis by simp
  qed
qed

lemma start_consistent: "consistent (start_session mp w)"
  by (simp add: consistent_def start_session_def ActionApprovalManager_init_def)

lemma run_hold:
  "state (manager s) = ActionDetectedState \<Longrightarrow> gesture \<noteq> Some CLOSED_FIST \<Longrightarrow>
   run (replicate k gesture) s = Returned s"
  by (induction k) (simp_all add: detected_other)

lemma run_states_hold:
  "state (manager s) = ActionDetectedState \<Longrightarrow> gesture \<noteq> Some CLOSED_FIST \<Longrightarrow>
   run_states (replicate k gesture) s = replicate k ActionDetectedState"
  by (induction k) (simp_all add: detected_other)

lemma entries_replicate: "entries st (st # replicate k st) = 0"
  by (induction k) simp_all

lemma run_idle_fist:
  "state (manager s) = IdleState \<Longrightarrow> run (replicate k (Some CLOSED_FIST)) s = Returned s"
  by (induction k) (simp_all add: idle_fist)

lemma handle_spotify_errors_result:
  "snd (handle_spotify_errors n f w) = None \<or> (\<exists>m. snd (handle_spotify_errors n f w) = Some (NonException m))"
  by (simp add: handle_spotify_errors_def split: prod.split option.split error.split)

lemma placeholder_not_wrapped: "not_implemented_action \<noteq> handle_spotify_errors n f"
proof
  assume eq: "not_implemented_action = handle_spotify_errors n f"
  obtain w :: "'a world" where True by blast
  have "snd (not_implemented_action w) = Some (NotImplementedError ''Action not implemented'')"
    by (simp add: not_implemented_action_def)
  with eq have "snd (handle_spotify_errors n f w) = Some (NotImplementedError ''Action not implemented'')"
    by simp
  with handle_spotify_errors_result[of n f w] show False by auto
qed

lemmas fixture_defs = start_session_def ActionApprovalManager_init_def add_mapping_def
  GestureToActionMapper_init_def volume_up_def volume_off_def unreachable_service_def quiet_room_def

lemmas machine_defs = handle_gesture_def IdleState_handle_gesture_def
  ActionDetectedState_handle_gesture_def ApprovedState_handle_gesture_def execute_action_def
  invoke_def perform_action_def transition_to_def set_pending_gesture_def say_def print_def

section \<open>The confirm cycle\<close>

text \<open>
  Claim C1. From Idle with nothing pending, a mapped gesture \<open>g\<close> other than the fist
  followed by the fist invokes the action registered for \<open>g\<close> exactly once: the world
  after the two calls is the one the action's callable leaves when run a single time on
  the world with the two notices printed, and the log grows by that one action. The
  outcome is pinned whole: the second call returns with nothing pending when the callable
  returns, and raises with \<open>g\<close> still pending when it raises. The machine is then in
  \<open>ApprovedState\<close>, the transient state of the specification, not in Idle; whatever is
  observed next takes it to Idle and changes nothing else.
\<close>

theorem confirm_cycle_performs_once:
  assumes "state (manager s) = IdleState" and "pending_gesture (manager s) = None"
    and "g \<noteq> CLOSED_FIST" and "gesture_action_map (mapper (manager s)) g = Some a"
    and "action a (print (''Performing action: '' @ action_name a)
           (print (awaiting_notice g) (world s))) = (w', r)"
  shows "run [Some g, Some CLOSED_FIST] s =
           (case r of
              None \<Rightarrow> Returned
                \<lparr>manager = (manager s)\<lparr>state := ApprovedState, pending_gesture := None\<rparr>,
                 world = w', performed = performed s @ [a]\<rparr>
            | Some e \<Rightarrow> Raised e
                \<lparr>manager = (manager s)\<lparr>state := ApprovedState, pending_gesture := Some g\<rparr>,
                 world = w', performed = performed s @ [a]\<rparr>)
       \<and> world (after (run [Some g, Some CLOSED_FIST] s)) = w'
       \<and> performed (after (run [Some g, Some CLOSED_FIST] s)) = performed s @ [a]
       \<and> state (manager (after (run [Some g, Some CLOSED_FIST] s))) = ApprovedState
       \<and> (\<forall>gesture.
            handle_gesture gesture (after (run [Some g, Some CLOSED_FIST] s)) =
            Returned ((after (run [Some g, Some CLOSED_FIST] s))
              \<lparr>manager := (manager (after (run [Some g, Some CLOSED_FIST] s)))
                            \<lparr>state := IdleState\<rparr>\<rparr>))"
proof -
  let ?s1 = "s\<lparr>manager := (manager s)\<lparr>state := ActionDetectedState, pending_gesture := Some g\<rparr>,
                world := print (awaiting_notice g) (world s)\<rparr>"
  let ?t = "after (run [Some g, Some CLOSED_FIST] s)"
  have first: "handle_gesture (Some g) s = Returned ?s1"
    using assms(1,3,4) by (rule idle_mapped)
  have second: "handle_gesture (Some CLOSED_FIST) ?s1 =
     (case r of
        None \<Rightarrow> Returned (?s1\<lparr>manager := (manager ?s1)\<lparr>state := ApprovedState, pending_gesture := None\<rparr>,
                              world := w', performed := performed ?s1 @ [a]\<rparr>)
      | Some e \<Rightarrow> Raised e (?s1\<lparr>manager := (manager ?s1)\<lparr>state := ApprovedState\<rparr>,
                                world := w', performed := performed ?s1 @ [a]\<rparr>))"
    using detected_fist_bound [of ?s1 g a w' r] assms(4,5) by simp
  from first second have whole: "run [Some g, Some CLOSED_FIST] s =
           (case r of
              None \<Rightarrow> Returned
                \<lparr>manager = (manager s)\<lparr>state := ApprovedState, pending_gesture := None\<rparr>,
                 world = w', performed = performed s @ [a]\<rparr>
            | Some e \<Rightarrow> Raised e
                \<lparr>manager = (manager s)\<lparr>state := ApprovedState, pending_gesture := Some g\<rparr>,
                 world = w', performed = performed s @ [a]\<rparr>)"
    by (simp split: option.split)
  then have w: "world ?t = w'" and log: "performed ?t = performed s @ [a]"
    and st: "state (manager ?t) = ApprovedState"
    by (simp_all split: option.split)
  from approved_any [OF st] have
    "\<forall>gesture. handle_gesture gesture ?t =
        Returned (?t\<lparr>manager := (manager ?t)\<lparr>state := IdleState\<rparr>\<rparr>)"
    by simp
  with whole w log st show ?thesis by blast
qed

text \<open>
  The hypotheses of C1 hold together: thumb-up bound to the volume action, then the fist.
  The volume goes from 30 to 40, one step and not two.
\<close>

theorem confirm_cycle_performs_once_witness:
  "THUMB_UP \<noteq> CLOSED_FIST
   \<and> run [Some THUMB_UP, Some CLOSED_FIST]
        (start_session (add_mapping THUMB_UP volume_up GestureToActionMapper_init) quiet_room)
     = Returned
         \<lparr>manager = \<lparr>state = ApprovedState, pending_gesture = None,
                      mapper = add_mapping THUMB_UP volume_up GestureToActionMapper_init\<rparr>,
          world = \<lparr>stdout = [awaiting_notice THUMB_UP, ''Performing action: Increase Volume''],
                   ext = 40\<rparr>,
          performed = [volume_up]\<rparr>
   \<and> handle_gesture (Some THUMB_UP)
        (after (run [Some THUMB_UP, Some CLOSED_FIST]
          (start_session (add_mapping THUMB_UP volume_up GestureToActionMapper_init) quiet_room)))
     = Returned
         \<lparr>manager = \<lparr>state = IdleState, pending_gesture = None,
                      mapper = add_mapping THUMB_UP volume_up GestureToActionMapper_init\<rparr>,
          world = \<lparr>stdout = [awaiting_notice THUMB_UP, ''Performing action: Increase Volume''],
                   ext = 40\<rparr>,
          performed = [volume_up]\<rparr>"
proof -
  let ?s = "start_session (add_mapping THUMB_UP volume_up GestureToActionMapper_init) quiet_room"
  have idle: "state (manager ?s) = IdleState"
    by (simp add: start_session_def ActionApprovalManager_init_def)
  have none: "pending_gesture (manager ?s) = None"
    by (simp add: start_session_def ActionApprovalManager_init_def)
  have other: "THUMB_UP \<noteq> CLOSED_FIST" by simp
  have bound: "gesture_action_map (mapper (manager ?s)) THUMB_UP = Some volume_up"
    by (simp add: start_session_def ActionApprovalManager_init_def add_mapping_def)
  have act: "action volume_up (print (''Performing action: '' @ action_name volume_up)
               (print (awaiting_notice THUMB_UP) (world ?s)))
             = (\<lparr>stdout = [awaiting_notice THUMB_UP, ''Performing action: Increase Volume''],
                  ext = 40\<rparr>, None)"
    by (simp add: start_session_def volume_up_def quiet_room_def print_def)
  note cycle = confirm_cycle_performs_once [OF idle none other bound act]
  have r: "run [Some THUMB_UP, Some CLOSED_FIST] ?s
     = Returned
         \<lparr>manager = \<lparr>state = ApprovedState, pending_gesture = None,
                      mapper = add_mapping THUMB_UP volume_up GestureToActionMapper_init\<rparr>,
          world = \<lparr>stdout = [awaiting_notice THUMB_UP, ''Performing action: Increase Volume''],
                   ext = 40\<rparr>,
          performed = [volume_up]\<rparr>"
    unfolding conjunct1 [OF cycle]
    by (simp add: start_session_def ActionApprovalManager_init_def)
  from cycle have "handle_gesture (Some THUMB_UP) (after (run [Some THUMB_UP, Some CLOSED_FIST] ?s)) =
            Returned ((after (run [Some THUMB_UP, Some CLOSED_FIST] ?s))
              \<lparr>manager := (manager (after (run [Some THUMB_UP, Some CLOSED_FIST] ?s)))
                            \<lparr>state := IdleState\<rparr>\<rparr>)"
    by blast
  then have n: "handle_gesture (Some THUMB_UP) (after (run [Some THUMB_UP, Some CLOSED_FIST] ?s))
     = Returned
         \<lparr>manager = \<lparr>state = IdleState, pending_gesture = None,
                      mapper = add_mapping THUMB_UP volume_up GestureToActionMapper_init\<rparr>,
          world = \<lparr>stdout = [awaiting_notice THUMB_UP, ''Performing action: Increase Volume''],
                   ext = 40\<rparr>,
          performed = [volume_up]\<rparr>"
    unfolding r by simp
  from other r n show ?thesis by blast
qed

text \<open>
  C1 as the specification words it ends in Idle. With thumb-up bound to an action that
  returns normally, the two calls return and the state is not Idle.
\<close>

theorem confirm_cycle_counterexample:
  "raised (run [Some THUMB_UP, Some CLOSED_FIST]
      (start_session (add_mapping THUMB_UP volume_up GestureToActionMapper_init) quiet_room)) = None
   \<and> state (manager (after (run [Some THUMB_UP, Some CLOSED_FIST]
      (start_session (add_mapping THUMB_UP volume_up GestureToActionMapper_init) quiet_room))))
     \<noteq> IdleState"
  by (simp add: fixture_defs machine_defs)

section \<open>An action that fails\<close>

text \<open>
  Claim C2. Confirming a pending gesture \<open>p\<close> bound to \<open>a\<close> moves to
  \<open>ApprovedState\<close>, prints the notice and invokes \<open>a\<close> once. When \<open>a\<close> returns,
  the call returns and the pending gesture is cleared. When \<open>a\<close> raises \<open>e\<close>, the call
  raises \<open>e\<close> and the pending gesture stays \<open>p\<close>. Either way the state after the call
  is \<open>ApprovedState\<close>, and the next call, whatever the observation, returns and sets the
  state to Idle.
\<close>

theorem confirmation_outcome:
  assumes "state (manager s) = ActionDetectedState"
    and "pending_gesture (manager s) = Some p"
    and "gesture_action_map (mapper (manager s)) p = Some a"
    and "action a (print (''Performing action: '' @ action_name a) (world s)) = (w', r)"
  shows "handle_gesture (Some CLOSED_FIST) s =
           (case r of
              None \<Rightarrow> Returned
                \<lparr>manager = (manager s)\<lparr>state := ApprovedState, pending_gesture := None\<rparr>,
                 world = w', performed = performed s @ [a]\<rparr>
            | Some e \<Rightarrow> Raised e
                \<lparr>manager = (manager s)\<lparr>state := ApprovedState\<rparr>,
                 world = w', performed = performed s @ [a]\<rparr>)
       \<and> (\<forall>gesture. handle_gesture gesture (after (handle_gesture (Some CLOSED_FIST) s)) =
            Returned ((after (handle_gesture (Some CLOSED_FIST) s))
              \<lparr>manager := (manager (after (handle_gesture (Some CLOSED_FIST) s)))\<lparr>state := IdleState\<rparr>\<rparr>))"
proof -
  have eq: "handle_gesture (Some CLOSED_FIST) s =
     (case r of
        None \<Rightarrow> Returned (s\<lparr>manager := (manager s)\<lparr>state := ApprovedState, pending_gesture := None\<rparr>,
                              world := w', performed := performed s @ [a]\<rparr>)
      | Some e \<Rightarrow> Raised e (s\<lparr>manager := (manager s)\<lparr>state := ApprovedState\<rparr>,
                                world := w', performed := performed s @ [a]\<rparr>))"
    using assms by (rule detected_fist_bound)
  then have st: "state (manager (after (handle_gesture (Some CLOSED_FIST) s))) = ApprovedState"
    by (simp split: option.split)
  from eq have "handle_gesture (Some CLOSED_FIST) s =
           (case r of
              None \<Rightarrow> Returned
                \<lparr>manager = (manager s)\<lparr>state := ApprovedState, pending_gesture := None\<rparr>,
                 world = w', performed = performed s @ [a]\<rparr>
            | Some e \<Rightarrow> Raised e
                \<lparr>manager = (manager s)\<lparr>state := ApprovedState\<rparr>,
                 world = w', performed = performed s @ [a]\<rparr>)"
    by (simp split: option.split)
  with approved_any [OF st] show ?thesis by blast
qed

text \<open>
  The hypotheses of C2 hold together, in the case of an action that raises.
\<close>

theorem confirmation_outcome_witness:
  "handle_gesture (Some CLOSED_FIST)
     \<lparr>manager = \<lparr>state = ActionDetectedState, pending_gesture = Some THUMB_DOWN,
                  mapper = add_mapping THUMB_DOWN unreachable_service GestureToActionMapper_init\<rparr>,
      world = quiet_room, performed = []\<rparr>
   = Raised (OtherException ''timed out'')
     \<lparr>manager = \<lparr>state = ApprovedState, pending_gesture = Some THUMB_DOWN,
                  mapper = add_mapping THUMB_DOWN unreachable_service GestureToActionMapper_init\<rparr>,
      world = print ''Performing action: Play Next'' quiet_room,
      performed = [unreachable_service]\<rparr>"
  using confirmation_outcome
    [of "\<lparr>manager = \<lparr>state = ActionDetectedState, pending_gesture = Some THUMB_DOWN,
                  mapper = add_mapping THUMB_DOWN unreachable_service GestureToActionMapper_init\<rparr>,
      world = quiet_room, performed = []\<rparr>" THUMB_DOWN unreachable_service
      "print ''Performing action: Play Next'' quiet_room" "Some (OtherException ''timed out'')"]
  by (simp add: add_mapping_def unreachable_service_def)

text \<open>
  C2 as the specification words it: the exception stays inside \<open>handle_gesture\<close>, the
  state afterwards is Idle or PendingApproval, the pending gesture is cleared. With
  thumb-down bound to an action that raises, the exception leaves the call, the state is
  \<open>ApprovedState\<close> and thumb-down is still pending.
\<close>

theorem failing_action_counterexample:
  "raised (run [Some THUMB_DOWN, Some CLOSED_FIST]
      (start_session (add_mapping THUMB_DOWN unreachable_service GestureToActionMapper_init) quiet_room))
     = Some (OtherException ''timed out'')
   \<and> state (manager (after (run [Some THUMB_DOWN, Some CLOSED_FIST]
      (start_session (add_mapping THUMB_DOWN unreachable_service GestureToActionMapper_init) quiet_room))))
     = ApprovedState
   \<and> pending_gesture (manager (after (run [Some THUMB_DOWN, Some CLOSED_FIST]
      (start_session (add_mapping THUMB_DOWN unreachable_service GestureToActionMapper_init) quiet_room))))
     = Some THUMB_DOWN"
  by (simp add: fixture_defs machine_defs)

section \<open>The registry after startup\<close>

text \<open>
  Claim C3. After \<open>add_gesture_mappings\<close>, whatever the registry held before, the fist
  is bound to the placeholder named "Approve". Its callable is none of the controller's
  playback controls, so no content action is bound to the fist; all it does is raise
  \<^verbatim>\<open>NotImplementedError\<close>.
\<close>

theorem fist_bound_to_placeholder_only:
  "gesture_action_map (add_gesture_mappings sc mp) CLOSED_FIST =
     Some \<lparr>action_name = ''Approve'', action = not_implemented_action\<rparr>
   \<and> not_implemented_action \<notin> set (content_actions sc)
   \<and> (\<forall>w :: 'x world.
        not_implemented_action w = (w, Some (NotImplementedError ''Action not implemented'')))"
  for sc :: "'x SpotifyController"
proof -
  have "gesture_action_map (add_gesture_mappings sc mp) CLOSED_FIST =
     Some \<lparr>action_name = ''Approve'', action = not_implemented_action\<rparr>"
    by (simp add: add_gesture_mappings_def add_mapping_def)
  moreover have "not_implemented_action \<notin> set (content_actions sc)"
    by (simp add: content_actions_def add_current_track_to_liked_def stop_playback_def
        play_next_track_def decrease_volume_def increment_volume_def mute_def unmute_def
        placeholder_not_wrapped)
  moreover have "\<forall>w::'x world. not_implemented_action w = (w, Some (NotImplementedError ''Action not implemented''))"
    by (simp add: not_implemented_action_def)
  ultimately show ?thesis by blast
qed

text \<open>
  C3 on the registry the application builds at startup.
\<close>

theorem fist_bound_to_placeholder_only_witness:
  "map_option action_name
     (gesture_action_map (mapper (manager (ApplicationController_init silent_controller quiet_room)))
        CLOSED_FIST) = Some ''Approve''
   \<and> not_implemented_action \<notin> set (content_actions silent_controller)
   \<and> not_implemented_action quiet_room = (quiet_room, Some (NotImplementedError ''Action not implemented''))"
  using fist_bound_to_placeholder_only [of silent_controller GestureToActionMapper_init]
  by (simp add: ApplicationController_init_def start_session_def ActionApprovalManager_init_def)

section \<open>Pending gesture and state\<close>

text \<open>
  Claim C4. In every session reached from the start (Idle, nothing pending) by calls of
  \<open>handle_gesture\<close> that all return, a gesture is pending if and only if the state is
  \<open>ActionDetectedState\<close> (PendingApproval).
\<close>

theorem pending_iff_awaiting_approval:
  assumes "run gs (start_session mp w) = Returned s"
  shows "(pending_gesture (manager s) \<noteq> None) = (state (manager s) = ActionDetectedState)"
proof -
  have "consistent (start_session mp w)" by (rule start_consistent)
  from this assms have "consistent s" by (rule run_consistent)
  then show ?thesis by (simp add: consistent_def)
qed

text \<open>
  The hypothesis of C4 holds: a run of three calls that all return.
\<close>

theorem pending_iff_awaiting_approval_witness:
  "run [Some THUMB_UP, None, Some OPEN_PALM]
     (start_session (add_mapping THUMB_UP volume_up GestureToActionMapper_init) quiet_room)
   = Returned
     \<lparr>manager = \<lparr>state = ActionDetectedState, pending_gesture = Some THUMB_UP,
                  mapper = add_mapping THUMB_UP volume_up GestureToActionMapper_init\<rparr>,
      world = print (awaiting_notice THUMB_UP) quiet_room, performed = []\<rparr>
   \<and> (pending_gesture \<lparr>state = ActionDetectedState, pending_gesture = Some THUMB_UP,
                  mapper = add_mapping THUMB_UP volume_up GestureToActionMapper_init\<rparr> \<noteq> None)
     = (state \<lparr>state = ActionDetectedState, pending_gesture = Some THUMB_UP,
                  mapper = add_mapping THUMB_UP volume_up GestureToActionMapper_init\<rparr> = ActionDetectedState)"
proof -
  have r: "run [Some THUMB_UP, None, Some OPEN_PALM]
     (start_session (add_mapping THUMB_UP volume_up GestureToActionMapper_init) quiet_room)
   = Returned
     \<lparr>manager = \<lparr>state = ActionDetectedState, pending_gesture = Some THUMB_UP,
                  mapper = add_mapping THUMB_UP volume_up GestureToActionMapper_init\<rparr>,
      world = print (awaiting_notice THUMB_UP) quiet_room, performed = []\<rparr>"
    by (simp add: start_session_def ActionApprovalManager_init_def add_mapping_def
        GestureToActionMapper_init_def handle_gesture_def IdleState_handle_gesture_def
        ActionDetectedState_handle_gesture_def transition_to_def set_pending_gesture_def say_def)
  from pending_iff_awaiting_approval [OF r] r show ?thesis by simp
qed

text \<open>
  C4 without the proviso fails. The second call below raises (the bound action fails)
  and leaves thumb-down pending in \<open>ApprovedState\<close>; the third call returns and the
  machine is Idle with thumb-down still pending.
\<close>

theorem pending_iff_counterexample:
  "\<not> ((pending_gesture (manager (calls [Some THUMB_DOWN, Some CLOSED_FIST, None]
          (start_session (add_mapping THUMB_DOWN unreachable_service GestureToActionMapper_init)
             quiet_room))) \<noteq> None)
      = (state (manager (calls [Some THUMB_DOWN, Some CLOSED_FIST, None]
          (start_session (add_mapping THUMB_DOWN unreachable_service GestureToActionMapper_init)
             quiet_room))) = ActionDetectedState))"
  by (simp add: fixture_defs machine_defs)

text \<open>
  Claim C5. While a gesture is pending, any observation other than the fist (another
  mapped gesture, an unmapped one, or none) changes nothing at all: same state, same
  pending gesture, same world, same log.
\<close>

theorem pending_ignores_noise:
  assumes "state (manager s) = ActionDetectedState" and "pending_gesture (manager s) = Some g"
    and "gesture \<noteq> Some CLOSED_FIST"
  shows "handle_gesture gesture s = Returned s"
  using assms(1,3) by (rule detected_other)

text \<open>
  The hypotheses of C5 hold together: open palm, itself mapped, while thumb-up is
  pending.
\<close>

theorem pending_ignores_noise_witness:
  "Some OPEN_PALM \<noteq> Some CLOSED_FIST
   \<and> handle_gesture (Some OPEN_PALM)
       \<lparr>manager = \<lparr>state = ActionDetectedState, pending_gesture = Some THUMB_UP,
          mapper = add_mapping OPEN_PALM volume_off
                     (add_mapping THUMB_UP volume_up GestureToActionMapper_init)\<rparr>,
        world = quiet_room, performed = []\<rparr>
     = Returned
       \<lparr>manager = \<lparr>state = ActionDetectedState, pending_gesture = Some THUMB_UP,
          mapper = add_mapping OPEN_PALM volume_off
                     (add_mapping THUMB_UP volume_up GestureToActionMapper_init)\<rparr>,
        world = quiet_room, performed = []\<rparr>"
  using pending_ignores_noise
    [of "\<lparr>manager = \<lparr>state = ActionDetectedState, pending_gesture = Some THUMB_UP,
          mapper = add_mapping OPEN_PALM volume_off
                     (add_mapping THUMB_UP volume_up GestureToActionMapper_init)\<rparr>,
        world = quiet_room, performed = []\<rparr>" THUMB_UP "Some OPEN_PALM"]
  by simp

text \<open>
  Claim C6. From Idle, a mapped gesture \<open>g\<close> other than the fist, observed
  \<open>n \<ge> 1\<close> times in a row, leaves the machine where the first observation put it:
  waiting for approval of \<open>g\<close>, with one notice printed. The state after every one of
  the \<open>n\<close> calls is \<open>ActionDetectedState\<close>, it is entered exactly once, and the log of
  invoked actions is unchanged.
\<close>

theorem held_gesture_enters_once:
  assumes "state (manager s) = IdleState" and "g \<noteq> CLOSED_FIST"
    and "gesture_action_map (mapper (manager s)) g = Some a" and "1 \<le> n"
  shows "run (replicate n (Some g)) s =
           Returned (s\<lparr>manager := (manager s)\<lparr>state := ActionDetectedState, pending_gesture := Some g\<rparr>,
                       world := print (awaiting_notice g) (world s)\<rparr>)
       \<and> run_states (replicate n (Some g)) s = replicate n ActionDetectedState
       \<and> entries ActionDetectedState (state (manager s) # run_states (replicate n (Some g)) s) = 1
       \<and> performed (after (run (replicate n (Some g)) s)) = performed s"
proof -
  from assms(4) obtain k where n: "n = Suc k" by (cases n) auto
  let ?s1 = "s\<lparr>manager := (manager s)\<lparr>state := ActionDetectedState, pending_gesture := Some g\<rparr>,
                world := print (awaiting_notice g) (world s)\<rparr>"
  have first: "handle_gesture (Some g) s = Returned ?s1"
    using assms(1-3) by (rule idle_mapped)
  have st1: "state (manager ?s1) = ActionDetectedState" by simp
  have ne: "Some g \<noteq> Some CLOSED_FIST" using assms(2) by simp
  have rest: "run (replicate k (Some g)) ?s1 = Returned ?s1"
    using st1 ne by (rule run_hold)
  have rest_states: "run_states (replicate k (Some g)) ?s1 = replicate k ActionDetectedState"
    using st1 ne by (rule run_states_hold)
  have r: "run (replicate n (Some g)) s = Returned ?s1"
    using first rest n by simp
  have rs: "run_states (replicate n (Some g)) s = replicate n ActionDetectedState"
    using first rest_states n by simp
  have "entries ActionDetectedState (IdleState # replicate n ActionDetectedState) = 1"
    using n entries_replicate [of ActionDetectedState k] by simp
  with rs assms(1)
  have e: "entries ActionDetectedState (state (manager s) # run_states (replicate n (Some g)) s) = 1"
    by simp
  from r have "performed (after (run (replicate n (Some g)) s)) = performed s" by simp
  with r rs e show ?thesis by blast
qed

text \<open>
  The hypotheses of C6 hold together: thumb-up held for three frames.
\<close>

theorem held_gesture_enters_once_witness:
  "THUMB_UP \<noteq> CLOSED_FIST \<and> (1::nat) \<le> 3
   \<and> run [Some THUMB_UP, Some THUMB_UP, Some THUMB_UP]
       (start_session (add_mapping THUMB_UP volume_up GestureToActionMapper_init) quiet_room)
     = Returned
       \<lparr>manager = \<lparr>state = ActionDetectedState, pending_gesture = Some THUMB_UP,
                    mapper = add_mapping THUMB_UP volume_up GestureToActionMapper_init\<rparr>,
        world = print (awaiting_notice THUMB_UP) quiet_room, performed = []\<rparr>
   \<and> entries ActionDetectedState
       (IdleState # run_states [Some THUMB_UP, Some THUMB_UP, Some THUMB_UP]
          (start_session (add_mapping THUMB_UP volume_up GestureToActionMapper_init) quiet_room))
     = 1"
  using held_gesture_enters_once
    [of "start_session (add_mapping THUMB_UP volume_up GestureToActionMapper_init) quiet_room"
        THUMB_UP volume_up 3]
  by (simp add: start_session_def ActionApprovalManager_init_def add_mapping_def numeral_3_eq_3)

section \<open>A binding removed before confirmation\<close>

text \<open>
  Claim C7. When the pending gesture has no binding any more, the fist makes the call
  return with the pending gesture cleared, the world and the log untouched, and the state
  \<open>ApprovedState\<close>; the next call, whatever the observation, returns with the state
  Idle and nothing pending.
\<close>

theorem removed_binding_is_safe:
  assumes "state (manager s) = ActionDetectedState" and "pending_gesture (manager s) = Some g"
    and "gesture_action_map (mapper (manager s)) g = None"
  shows "handle_gesture (Some CLOSED_FIST) s =
           Returned (s\<lparr>manager := (manager s)\<lparr>state := ApprovedState, pending_gesture := None\<rparr>\<rparr>)
       \<and> (\<forall>gesture.
            handle_gesture gesture
              (s\<lparr>manager := (manager s)\<lparr>state := ApprovedState, pending_gesture := None\<rparr>\<rparr>) =
            Returned (s\<lparr>manager := (manager s)\<lparr>state := IdleState, pending_gesture := None\<rparr>\<rparr>))"
proof -
  have "handle_gesture (Some CLOSED_FIST) s =
           Returned (s\<lparr>manager := (manager s)\<lparr>state := ApprovedState, pending_gesture := None\<rparr>\<rparr>)"
    using assms by (rule detected_fist_unbound)
  moreover have "handle_gesture gesture
              (s\<lparr>manager := (manager s)\<lparr>state := ApprovedState, pending_gesture := None\<rparr>\<rparr>) =
            Returned (s\<lparr>manager := (manager s)\<lparr>state := IdleState, pending_gesture := None\<rparr>\<rparr>)"
    for gesture
    using approved_any
      [of "s\<lparr>manager := (manager s)\<lparr>state := ApprovedState, pending_gesture := None\<rparr>\<rparr>" gesture]
    by simp
  ultimately show ?thesis by blast
qed

text \<open>
  The hypotheses of C7 hold together: thumb-up pending over an empty registry.
\<close>

theorem removed_binding_is_safe_witness:
  "handle_gesture (Some CLOSED_FIST)
     \<lparr>manager = \<lparr>state = ActionDetectedState, pending_gesture = Some THUMB_UP,
                  mapper = GestureToActionMapper_init\<rparr>,
      world = quiet_room, performed = []\<rparr>
   = Returned
     \<lparr>manager = \<lparr>state = ApprovedState, pending_gesture = None,
                  mapper = GestureToActionMapper_init\<rparr>,
      world = quiet_room, performed = []\<rparr>
   \<and> handle_gesture None
     \<lparr>manager = \<lparr>state = ApprovedState, pending_gesture = None,
                  mapper = GestureToActionMapper_init\<rparr>,
      world = quiet_room, performed = []\<rparr>
   = Returned
     \<lparr>manager = \<lparr>state = IdleState, pending_gesture = None,
                  mapper = GestureToActionMapper_init\<rparr>,
      world = quiet_room, performed = ([] :: nat GestureAction list)\<rparr>"
  using removed_binding_is_safe
    [of "\<lparr>manager = \<lparr>state = ActionDetectedState, pending_gesture = Some THUMB_UP,
                  mapper = GestureToActionMapper_init\<rparr>,
      world = quiet_room, performed = ([] :: nat GestureAction list)\<rparr>" THUMB_UP]
  by (simp add: GestureToActionMapper_init_def)

text \<open>
  C7 as the specification words it ends in Idle. Thumb-up is detected, the registry is
  then emptied, and the fist is observed: the call returns and the state is not Idle.
\<close>

theorem removed_binding_counterexample:
  "raised (handle_gesture (Some CLOSED_FIST)
     ((after (handle_gesture (Some THUMB_UP)
         (start_session (add_mapping THUMB_UP volume_up GestureToActionMapper_init) quiet_room)))
      \<lparr>manager := (manager (after (handle_gesture (Some THUMB_UP)
         (start_session (add_mapping THUMB_UP volume_up GestureToActionMapper_init) quiet_room))))
           \<lparr>mapper := GestureToActionMapper_init\<rparr>\<rparr>)) = None
   \<and> state (manager (after (handle_gesture (Some CLOSED_FIST)
     ((after (handle_gesture (Some THUMB_UP)
         (start_session (add_mapping THUMB_UP volume_up GestureToActionMapper_init) quiet_room)))
      \<lparr>manager := (manager (after (handle_gesture (Some THUMB_UP)
         (start_session (add_mapping THUMB_UP volume_up GestureToActionMapper_init) quiet_room))))
           \<lparr>mapper := GestureToActionMapper_init\<rparr>\<rparr>)))) \<noteq> IdleState"
  by (simp add: fixture_defs machine_defs)

section \<open>Registering twice\<close>

text \<open>
  Claim C8. Registering \<open>a1\<close> and then \<open>a2\<close> for the same gesture leaves the
  registry as if only \<open>a2\<close> had been registered, and a lookup gives \<open>a2\<close>. A confirm
  cycle for that gesture from a fresh session is pinned whole, and \<open>a1\<close> has no part in
  it: the world afterwards is the one the callable of \<open>a2\<close> leaves when run a single
  time on the world with the two notices printed, and the log is \<open>a2\<close> alone. When the
  gesture is the fist, which is never pending, the two calls change nothing and nothing is
  invoked.
\<close>

theorem last_registration_wins:
  "gesture_action_map (add_mapping g a2 (add_mapping g a1 m)) g = Some a2
   \<and> add_mapping g a2 (add_mapping g a1 m) = add_mapping g a2 m
   \<and> run [Some g, Some CLOSED_FIST] (start_session (add_mapping g a2 (add_mapping g a1 m)) w) =
       (if g = CLOSED_FIST then Returned (start_session (add_mapping g a2 m) w)
        else
          (case action a2 (print (''Performing action: '' @ action_name a2)
                  (print (awaiting_notice g) w)) of
             (w', None) \<Rightarrow> Returned
               \<lparr>manager = \<lparr>state = ApprovedState, pending_gesture = None,
                            mapper = add_mapping g a2 m\<rparr>,
                world = w', performed = [a2]\<rparr>
           | (w', Some e) \<Rightarrow> Raised e
               \<lparr>manager = \<lparr>state = ApprovedState, pending_gesture = Some g,
                            mapper = add_mapping g a2 m\<rparr>,
                world = w', performed = [a2]\<rparr>))
   \<and> performed (after (run [Some g, Some CLOSED_FIST]
        (start_session (add_mapping g a2 (add_mapping g a1 m)) w)))
      = (if g = CLOSED_FIST then [] else [a2])"
proof -
  have over: "add_mapping g a2 (add_mapping g a1 m) = add_mapping g a2 m"
    by (simp add: add_mapping_def)
  have look: "gesture_action_map (add_mapping g a2 m) g = Some a2"
    by (simp add: add_mapping_def)
  let ?s = "start_session (add_mapping g a2 m) w"
  let ?rhs = "if g = CLOSED_FIST then Returned ?s
        else
          (case action a2 (print (''Performing action: '' @ action_name a2)
                  (print (awaiting_notice g) w)) of
             (w', None) \<Rightarrow> Returned
               \<lparr>manager = \<lparr>state = ApprovedState, pending_gesture = None,
                            mapper = add_mapping g a2 m\<rparr>,
                world = w', performed = [a2]\<rparr>
           | (w', Some e) \<Rightarrow> Raised e
               \<lparr>manager = \<lparr>state = ApprovedState, pending_gesture = Some g,
                            mapper = add_mapping g a2 m\<rparr>,
                world = w', performed = [a2]\<rparr>)"
  have idle: "state (manager ?s) = IdleState"
    by (simp add: start_session_def ActionApprovalManager_init_def)
  have cycle: "run [Some g, Some CLOSED_FIST] ?s = ?rhs"
  proof (cases "g = CLOSED_FIST")
    case True
    with idle_fist [OF idle] show ?thesis by simp
  next
    case False
    let ?s1 = "?s\<lparr>manager := (manager ?s)\<lparr>state := ActionDetectedState, pending_gesture := Some g\<rparr>,
                world := print (awaiting_notice g) (world ?s)\<rparr>"
    have bound: "gesture_action_map (mapper (manager ?s)) g = Some a2"
      using look by (simp add: start_session_def ActionApprovalManager_init_def)
    have first: "handle_gesture (Some g) ?s = Returned ?s1"
      using idle False bound by (rule idle_mapped)
    obtain w' r where act:
      "action a2 (print (''Performing action: '' @ action_name a2) (world ?s1)) = (w', r)"
      by (cases "action a2 (print (''Performing action: '' @ action_name a2) (world ?s1))")
    then have act': "action a2 (print (''Performing action: '' @ action_name a2)
                  (print (awaiting_notice g) w)) = (w', r)"
      by (simp add: start_session_def)
    have "handle_gesture (Some CLOSED_FIST) ?s1 =
     (case r of
        None \<Rightarrow> Returned (?s1\<lparr>manager := (manager ?s1)\<lparr>state := ApprovedState, pending_gesture := None\<rparr>,
                              world := w', performed := performed ?s1 @ [a2]\<rparr>)
      | Some e \<Rightarrow> Raised e (?s1\<lparr>manager := (manager ?s1)\<lparr>state := ApprovedState\<rparr>,
                                world := w', performed := performed ?s1 @ [a2]\<rparr>))"
      using detected_fist_bound [of ?s1 g a2 w' r] bound act by simp
    with first False act' show ?thesis
      by (simp add: start_session_def ActionApprovalManager_init_def split: option.split)
  qed
  then have "performed (after (run [Some g, Some CLOSED_FIST] ?s))
      = (if g = CLOSED_FIST then [] else [a2])"
    by (simp add: start_session_def split: prod.split option.split)
  with over look cycle show ?thesis by simp
qed

text \<open>
  C8 on two different actions, muting registered first and the volume step second: the
  volume ends at 40, so the volume step ran once and muting did not run.
\<close>

theorem last_registration_wins_witness:
  "volume_off \<noteq> volume_up
   \<and> gesture_action_map
       (add_mapping VICTORY volume_up (add_mapping VICTORY volume_off GestureToActionMapper_init))
       VICTORY = Some volume_up
   \<and> run [Some VICTORY, Some CLOSED_FIST]
        (start_session
           (add_mapping VICTORY volume_up (add_mapping VICTORY volume_off GestureToActionMapper_init))
           quiet_room)
      = Returned
         \<lparr>manager = \<lparr>state = ApprovedState, pending_gesture = None,
                      mapper = add_mapping VICTORY volume_up GestureToActionMapper_init\<rparr>,
          world = \<lparr>stdout = [awaiting_notice VICTORY, ''Performing action: Increase Volume''],
                   ext = 40\<rparr>,
          performed = [volume_up]\<rparr>
   \<and> volume_off \<notin> set (performed (after (run [Some VICTORY, Some CLOSED_FIST]
        (start_session
           (add_mapping VICTORY volume_up (add_mapping VICTORY volume_off GestureToActionMapper_init))
           quiet_room))))"
proof -
  let ?twice = "add_mapping VICTORY volume_up (add_mapping VICTORY volume_off GestureToActionMapper_init)"
  note wins = last_registration_wins [of VICTORY volume_up volume_off GestureToActionMapper_init quiet_room]
  have ne: "volume_off \<noteq> volume_up"
    by (simp add: volume_up_def volume_off_def)
  from wins have look: "gesture_action_map ?twice VICTORY = Some volume_up"
    by (rule conjunct1)
  have act: "action volume_up (print (''Performing action: '' @ action_name volume_up)
               (print (awaiting_notice VICTORY) quiet_room))
             = (\<lparr>stdout = [awaiting_notice VICTORY, ''Performing action: Increase Volume''],
                  ext = 40\<rparr>, None)"
    by (simp add: volume_up_def quiet_room_def print_def)
  have r: "run [Some VICTORY, Some CLOSED_FIST] (start_session ?twice quiet_room)
      = Returned
         \<lparr>manager = \<lparr>state = ApprovedState, pending_gesture = None,
                      mapper = add_mapping VICTORY volume_up GestureToActionMapper_init\<rparr>,
          world = \<lparr>stdout = [awaiting_notice VICTORY, ''Performing action: Increase Volume''],
                   ext = 40\<rparr>,
          performed = [volume_up]\<rparr>"
    unfolding conjunct1 [OF conjunct2 [OF conjunct2 [OF wins]]] act by simp
  have "volume_off \<notin> set (performed (after (run [Some VICTORY, Some CLOSED_FIST]
          (start_session ?twice quiet_room))))"
    unfolding r using ne by simp
  with ne look r show ?thesis by blast
qed

section \<open>The fist while idle, and the reset\<close>

text \<open>
  Claim C9. In Idle with nothing pending the fist changes nothing, whatever the registry
  binds to it, and so does any number of fists in a row.
\<close>

theorem idle_ignores_approval:
  assumes "state (manager s) = IdleState" and "pending_gesture (manager s) = None"
  shows "handle_gesture (Some CLOSED_FIST) s = Returned s
       \<and> run (replicate n (Some CLOSED_FIST)) s = Returned s"
  using assms(1) by (simp add: idle_fist run_idle_fist)

text \<open>
  The hypotheses of C9 hold together on the application's own registry, which binds
  the fist.
\<close>

theorem idle_ignores_approval_witness:
  "gesture_action_map (mapper (manager (ApplicationController_init silent_controller quiet_room)))
     CLOSED_FIST \<noteq> None
   \<and> run [Some CLOSED_FIST, Some CLOSED_FIST]
       (ApplicationController_init silent_controller quiet_room)
     = Returned (ApplicationController_init silent_controller quiet_room)"
  using idle_ignores_approval [of "ApplicationController_init silent_controller quiet_room" 2]
  by (simp add: ApplicationController_init_def start_session_def ActionApprovalManager_init_def
      add_gesture_mappings_def add_mapping_def numeral_2_eq_2)

text \<open>
  Claim C10. In \<open>ApprovedState\<close>, the state a confirmation leaves, a call returns with
  the state set to Idle and nothing else changed, whatever it observes: no pending
  gesture is set and the log stays as it was.
\<close>

theorem reset_consumes_observation:
  assumes "state (manager s) = ApprovedState"
  shows "handle_gesture gesture s = Returned (s\<lparr>manager := (manager s)\<lparr>state := IdleState\<rparr>\<rparr>)"
  using assms by (rule approved_any)

text \<open>
  The hypothesis of C10 holds: after a confirmation, a mapped gesture is observed.
\<close>

theorem reset_consumes_observation_witness:
  "handle_gesture (Some THUMB_UP)
     \<lparr>manager = \<lparr>state = ApprovedState, pending_gesture = None,
                  mapper = add_mapping THUMB_UP volume_up GestureToActionMapper_init\<rparr>,
      world = quiet_room, performed = [volume_up]\<rparr>
   = Returned
     \<lparr>manager = \<lparr>state = IdleState, pending_gesture = None,
                  mapper = add_mapping THUMB_UP volume_up GestureToActionMapper_init\<rparr>,
      world = quiet_room, performed = [volume_up]\<rparr>"
  using reset_consumes_observation
    [of "\<lparr>manager = \<lparr>state = ApprovedState, pending_gesture = None,
                  mapper = add_mapping THUMB_UP volume_up GestureToActionMapper_init\<rparr>,
      world = quiet_room, performed = [volume_up]\<rparr>" "Some THUMB_UP"]
  by simp

end
